theory Spec2Isabelle
  imports Complex_Main
begin

section \<open>The cursor-trail grid effect of \<open>src/hooks/useWebGLGrid.ts\<close>\<close>

text \<open>
  The hook keeps three pieces of mutable state in the closure of its effect: the array
  \<open>trail\<close> (newest point at index 0), the flat buffer \<open>trailData\<close> handed to the
  shader, and the handle \<open>rafId\<close> of the pending frame callback. They are fields of the
  record \<open>hook_state\<close> below and every handler is a function from state to state.

  JavaScript numbers and GLSL floats are modelled as \<open>real\<close>: the development is about
  finite values and exact arithmetic, it says nothing about rounding (to double, to the
  32-bit floats of \<open>Float32Array\<close>, to \<open>mediump\<close>), about \<open>NaN\<close> or about infinities.
\<close>

subsection \<open>Trail constants (lines 123-131)\<close>

definition TRAIL_MAX :: nat where
  "TRAIL_MAX = 50"

definition TRAIL_DURATION :: real where
  "TRAIL_DURATION = 500"

definition TRAIL_MIN_DIST :: real where
  "TRAIL_MIN_DIST = 8"

text \<open>\<open>interface TrailPoint { x; y; t }\<close>; the fields carry a prefix because a record
  field is a global constant in HOL.\<close>

record TrailPoint =
  tp_x :: real
  tp_y :: real
  tp_t :: real

subsection \<open>State of one mounted instance\<close>

text \<open>
  The first five fields are the variables of the effect's closure and the two
  properties of the canvas it writes. The \<open>gl_\<close> fields are what the calls of
  \<open>render\<close> leave in the WebGL context: the viewport, the value of the uniform
  \<open>u_trail\<close> and the number of \<open>drawArrays\<close> calls so far. The \<open>raf_\<close> fields are the
  browser's side of \<open>requestAnimationFrame\<close>: the handles of the callbacks waiting for
  the next frame (every one of them is \<open>tick\<close>, the only callback the hook ever
  passes) and the last handle given out.
\<close>

record hook_state =
  trail :: "TrailPoint list"
  trailData :: "real list"
  rafId :: "nat option"
  canvas_width :: real
  canvas_height :: real
  gl_viewport :: "real \<times> real"
  gl_u_trail :: "real list"
  gl_draws :: nat
  raf_pending :: "nat list"
  raf_counter :: nat

text \<open>The state at line 197, before the first \<open>syncSize\<close>: an empty trail, a zeroed
  \<open>Float32Array(TRAIL_MAX * 3)\<close>, no frame requested. \<open>w\<close> and \<open>h\<close> are the size the
  canvas element has at that moment.\<close>

definition fresh :: "real \<Rightarrow> real \<Rightarrow> hook_state" where
  "fresh w h =
     \<lparr>trail = [], trailData = replicate (TRAIL_MAX * 3) 0, rafId = None,
      canvas_width = w, canvas_height = h,
      gl_viewport = (0, 0), gl_u_trail = replicate (TRAIL_MAX * 3) 0, gl_draws = 0,
      raf_pending = [], raf_counter = 0\<rparr>"

text \<open>\<open>requestAnimationFrame(tick)\<close>: the browser appends the callback to its list and
  returns a new non-zero handle.\<close>

definition requestAnimationFrame :: "hook_state \<Rightarrow> nat \<times> hook_state" where
  "requestAnimationFrame st =
     (let h = Suc (raf_counter st)
      in (h, st\<lparr>raf_pending := raf_pending st @ [h], raf_counter := h\<rparr>))"

subsection \<open>\<open>render\<close> (lines 200-215)\<close>

text \<open>The body of the \<open>for\<close> loop for index \<open>i\<close>. A write past the end of a typed array
  is ignored in JavaScript, which is what \<open>list_update\<close> does in HOL.\<close>

definition write_slot :: "real \<Rightarrow> TrailPoint list \<Rightarrow> nat \<Rightarrow> real list \<Rightarrow> real list" where
  "write_slot now tr i td =
     (let age = now - tp_t (tr ! i);
          influence = max 0 (1 - age / TRAIL_DURATION)
      in td[i * 3 := tp_x (tr ! i), i * 3 + 1 := tp_y (tr ! i), i * 3 + 2 := influence])"

definition render :: "real \<Rightarrow> hook_state \<Rightarrow> hook_state" where
  "render now st =
     (let td = fold (write_slot now (trail st)) [0..<length (trail st)]
                 (replicate (length (trailData st)) 0)
      in st\<lparr>trailData := td,
            gl_viewport := (canvas_width st, canvas_height st),
            gl_u_trail := td,
            gl_draws := Suc (gl_draws st)\<rparr>)"

subsection \<open>\<open>tick\<close> and \<open>startLoop\<close> (lines 218-236)\<close>

text \<open>The \<open>while\<close> loop of \<open>tick\<close>: pop from the tail while the last point is older than
  the cutoff.\<close>

function expire :: "real \<Rightarrow> TrailPoint list \<Rightarrow> TrailPoint list" where
  "expire cutoff tr =
     (if length tr > 0 \<and> tp_t (tr ! (length tr - 1)) < cutoff
      then expire cutoff (butlast tr) else tr)"
  by pat_completeness auto
termination
  by (relation "measure (\<lambda>(cutoff, tr). length tr)") auto

declare expire.simps [simp del]

definition tick :: "real \<Rightarrow> hook_state \<Rightarrow> hook_state" where
  "tick now st =
     (let cutoff = now - TRAIL_DURATION;
          st1 = st\<lparr>trail := expire cutoff (trail st)\<rparr>;
          st2 = render now st1
      in if length (trail st2) > 0
         then (let (h, st3) = requestAnimationFrame st2 in st3\<lparr>rafId := Some h\<rparr>)
         else st2\<lparr>rafId := None\<rparr>)"

definition startLoop :: "hook_state \<Rightarrow> hook_state" where
  "startLoop st =
     (if rafId st = None
      then (let (h, st1) = requestAnimationFrame st in st1\<lparr>rafId := Some h\<rparr>)
      else st)"

subsection \<open>Event handlers (lines 239-273)\<close>

record MouseEvent =
  clientX :: real
  clientY :: real

text \<open>The result of \<open>container.getBoundingClientRect()\<close>.\<close>

record DOMRect =
  rect_left :: real
  rect_top :: real
  rect_width :: real
  rect_height :: real

text \<open>Lines 240-245: the pointer position in canvas pixels, with the y axis flipped.\<close>

definition pointer_x :: "hook_state \<Rightarrow> DOMRect \<Rightarrow> MouseEvent \<Rightarrow> real" where
  "pointer_x st rect e =
     (let scaleX = canvas_width st / rect_width rect
      in (clientX e - rect_left rect) * scaleX)"

definition pointer_y :: "hook_state \<Rightarrow> DOMRect \<Rightarrow> MouseEvent \<Rightarrow> real" where
  "pointer_y st rect e =
     (let scaleY = canvas_height st / rect_height rect
      in canvas_height st - (clientY e - rect_top rect) * scaleY)"

text \<open>Lines 250-255: the early return when the most recent point is closer than
  \<open>TRAIL_MIN_DIST\<close>. \<open>trail[0]\<close> is \<open>undefined\<close> on an empty array and the test is
  skipped.\<close>

definition too_close :: "real \<Rightarrow> real \<Rightarrow> TrailPoint list \<Rightarrow> bool" where
  "too_close x y tr =
     (case tr of
        [] \<Rightarrow> False
      | lastp # _ \<Rightarrow>
          (let dx = x - tp_x lastp; dy = y - tp_y lastp
           in dx * dx + dy * dy < TRAIL_MIN_DIST * TRAIL_MIN_DIST))"

text \<open>Lines 257-258: \<open>unshift\<close>, then \<open>trail.length = TRAIL_MAX\<close> when it is longer.\<close>

definition unshift_capped :: "TrailPoint \<Rightarrow> TrailPoint list \<Rightarrow> TrailPoint list" where
  "unshift_capped p tr =
     (let tr1 = p # tr
      in if length tr1 > TRAIL_MAX then take TRAIL_MAX tr1 else tr1)"

definition onMouseMove :: "DOMRect \<Rightarrow> MouseEvent \<Rightarrow> real \<Rightarrow> hook_state \<Rightarrow> hook_state" where
  "onMouseMove rect e now st =
     (let x = pointer_x st rect e;
          y = pointer_y st rect e
      in if too_close x y (trail st) then st
         else startLoop
                (st\<lparr>trail := unshift_capped \<lparr>tp_x = x, tp_y = y, tp_t = now\<rparr> (trail st)\<rparr>))"

definition onMouseLeave :: "hook_state \<Rightarrow> hook_state" where
  "onMouseLeave st = startLoop st"

text \<open>\<open>syncSize\<close>: \<open>w\<close> and \<open>h\<close> are \<open>container.clientWidth\<close> and \<open>clientHeight\<close>, \<open>now\<close> is
  \<open>performance.now()\<close>.\<close>

definition syncSize :: "real \<Rightarrow> real \<Rightarrow> real \<Rightarrow> hook_state \<Rightarrow> hook_state" where
  "syncSize w h now st = render now (st\<lparr>canvas_width := w, canvas_height := h\<rparr>)"

subsection \<open>The browser driving the instance\<close>

text \<open>
  What can happen to a mounted instance: a \<open>mousemove\<close> or \<open>mouseleave\<close> on the
  container, a notification of the \<open>ResizeObserver\<close>, or an animation frame. At a frame
  the browser takes the list of waiting callbacks, empties it, and calls each with the
  frame's timestamp; callbacks requested meanwhile wait for the following frame.
\<close>

datatype event =
  MouseMove DOMRect MouseEvent real
  | MouseLeave
  | Resize real real real
  | AnimationFrame real

definition animationFrame :: "real \<Rightarrow> hook_state \<Rightarrow> hook_state" where
  "animationFrame now st =
     fold (\<lambda>h. tick now) (raf_pending st) (st\<lparr>raf_pending := []\<rparr>)"

fun step :: "event \<Rightarrow> hook_state \<Rightarrow> hook_state" where
  "step (MouseMove rect e now) st = onMouseMove rect e now st"
| "step MouseLeave st = onMouseLeave st"
| "step (Resize w h now) st = syncSize w h now st"
| "step (AnimationFrame now) st = animationFrame now st"

definition run :: "event list \<Rightarrow> hook_state \<Rightarrow> hook_state" where
  "run evs st = fold step evs st"

subsection \<open>The fragment shader \<open>FRAG_SRC\<close> (lines 23-77)\<close>

type_synonym vec2 = "real \<times> real"
type_synonym vec3 = "real \<times> real \<times> real"
type_synonym vec4 = "real \<times> real \<times> real \<times> real"

definition GRID_SIZE :: real where
  "GRID_SIZE = 48"

definition GRID_GAP :: real where
  "GRID_GAP = 4"

definition CORNER_RADIUS :: real where
  "CORNER_RADIUS = 6"

definition BORDER_WIDTH :: real where
  "BORDER_WIDTH = 4"

definition HOVER_RADIUS :: real where
  "HOVER_RADIUS = 100"

definition COLOR_BORDER_HOVER :: vec4 where
  "COLOR_BORDER_HOVER = (557 / 1000, 196 / 1000, 4 / 1000, 1)"

text \<open>The GLSL built-ins the shader calls, on the types it calls them at.\<close>

definition glsl_length :: "vec2 \<Rightarrow> real" where
  "glsl_length v = sqrt (fst v * fst v + snd v * snd v)"

definition smoothstep :: "real \<Rightarrow> real \<Rightarrow> real \<Rightarrow> real" where
  "smoothstep edge0 edge1 v =
     (let s = min (max ((v - edge0) / (edge1 - edge0)) 0) 1
      in s * s * (3 - 2 * s))"

definition mix :: "vec4 \<Rightarrow> vec4 \<Rightarrow> real \<Rightarrow> vec4" where
  "mix a b w =
     (case a of (a1, a2, a3, a4) \<Rightarrow> case b of (b1, b2, b3, b4) \<Rightarrow>
        (a1 * (1 - w) + b1 * w, a2 * (1 - w) + b2 * w,
         a3 * (1 - w) + b3 * w, a4 * (1 - w) + b4 * w))"

definition vec4_zero :: vec4 where
  "vec4_zero = (0, 0, 0, 0)"

text \<open>Lines 46-47: the centre of the grid cell that holds the pixel.\<close>

definition cellCenter :: "vec2 \<Rightarrow> vec2" where
  "cellCenter fc =
     (let cellId = (real_of_int \<lfloor>fst fc / GRID_SIZE\<rfloor>, real_of_int \<lfloor>snd fc / GRID_SIZE\<rfloor>)
      in ((fst cellId + 1 / 2) * GRID_SIZE, (snd cellId + 1 / 2) * GRID_SIZE))"

text \<open>Lines 48-53: the signed distance of the pixel to the rounded box of its cell.\<close>

definition sdf :: "vec2 \<Rightarrow> real" where
  "sdf fc =
     (let cellLocal = (fst fc - fst (cellCenter fc), snd fc - snd (cellCenter fc));
          halfSize = GRID_SIZE * (1 / 2) - GRID_GAP;
          q = (\<bar>fst cellLocal\<bar> - (halfSize - CORNER_RADIUS),
               \<bar>snd cellLocal\<bar> - (halfSize - CORNER_RADIUS))
      in glsl_length (max (fst q) 0, max (snd q) 0)
           + min (max (fst q) (snd q)) 0 - CORNER_RADIUS)"

text \<open>Line 66: the spatial falloff of a trail point at distance \<open>dst\<close> (the source's
  \<open>dist\<close>) of the cell centre.\<close>

definition spatial :: "real \<Rightarrow> real" where
  "spatial dst = 1 - smoothstep 0 HOVER_RADIUS dst"

text \<open>Lines 62-68: the body of the loop over the uniform array, and the loop. The
  uniform \<open>u_trail\<close> is an array of \<open>TRAIL_MAX\<close> vectors, here a function of the
  index.\<close>

definition trail_slot :: "(nat \<Rightarrow> vec3) \<Rightarrow> vec2 \<Rightarrow> nat \<Rightarrow> real \<Rightarrow> real" where
  "trail_slot u c i maxInfluence =
     (case u i of (tx, ty, trailInfluence) \<Rightarrow>
        if trailInfluence \<le> 0 then maxInfluence
        else (let dst = glsl_length (fst c - tx, snd c - ty)
              in max maxInfluence (trailInfluence * spatial dst)))"

definition maxInfluence :: "(nat \<Rightarrow> vec3) \<Rightarrow> vec2 \<Rightarrow> real" where
  "maxInfluence u c = fold (trail_slot u c) [0..<TRAIL_MAX] 0"

text \<open>\<open>main\<close>: the value written to \<open>gl_FragColor\<close> for the pixel \<open>fc\<close>.\<close>

definition frag_main :: "(nat \<Rightarrow> vec3) \<Rightarrow> vec2 \<Rightarrow> vec4" where
  "frag_main u fc =
     (if sdf fc > 0 then vec4_zero
      else (let m = maxInfluence u (cellCenter fc)
            in if sdf fc > - BORDER_WIDTH then mix vec4_zero COLOR_BORDER_HOVER m
               else vec4_zero))"

text \<open>The product the loop compares for slot \<open>i\<close>: stored influence times spatial
  falloff.\<close>

definition slot_glow :: "(nat \<Rightarrow> vec3) \<Rightarrow> vec2 \<Rightarrow> nat \<Rightarrow> real" where
  "slot_glow u c i =
     (case u i of (tx, ty, trailInfluence) \<Rightarrow>
        trailInfluence * spatial (glsl_length (fst c - tx, snd c - ty)))"

text \<open>How \<open>gl.uniform3fv(uTrail, trailData)\<close> fills the array from the flat buffer.\<close>

definition uniform3fv :: "real list \<Rightarrow> nat \<Rightarrow> vec3" where
  "uniform3fv td i = (td ! (i * 3), td ! (i * 3 + 1), td ! (i * 3 + 2))"

subsection \<open>Mounting: the body of the effect up to its \<open>return\<close> (lines 149-281)\<close>

text \<open>
  The effect is modelled as a function of what it finds: the two refs, and the answers
  the WebGL implementation gives when shaders are created, compiled and linked. It
  returns the list of calls with an effect outside the closure, in order, and the
  outcome: the effect returned early (\<open>Inactive\<close>), threw, or set the instance up.
\<close>

datatype effect =
  Call string
  | ConsoleWarn string

record gl_object =
  created :: bool
  status :: bool
  info_log :: string

record WebGLRenderingContext =
  vertex_shader :: gl_object
  fragment_shader :: gl_object
  program_object :: gl_object

record HTMLCanvasElement =
  getContext_webgl :: "WebGLRenderingContext option"
  initial_width :: real
  initial_height :: real

record HTMLElement =
  clientWidth :: real
  clientHeight :: real

datatype mount_result =
  Inactive
  | Threw string
  | Active hook_state

definition compileShader :: "gl_object \<Rightarrow> effect list \<times> (string + unit)" where
  "compileShader sh =
     (if \<not> created sh then ([Call ''gl.createShader''], Inl ''Failed to create WebGL shader'')
      else if \<not> status sh
      then ([Call ''gl.createShader'', Call ''gl.shaderSource'', Call ''gl.compileShader'',
             Call ''gl.deleteShader''],
            Inl (''Shader compile error:'' @ [CHR 0x0A] @ info_log sh))
      else ([Call ''gl.createShader'', Call ''gl.shaderSource'', Call ''gl.compileShader''],
            Inr ()))"

definition linkProgram :: "gl_object \<Rightarrow> effect list \<times> (string + unit)" where
  "linkProgram pr =
     (if \<not> created pr then ([Call ''gl.createProgram''], Inl ''Failed to create WebGL program'')
      else if \<not> status pr
      then ([Call ''gl.createProgram'', Call ''gl.attachShader'', Call ''gl.attachShader'',
             Call ''gl.linkProgram'', Call ''gl.deleteProgram''],
            Inl (''Program link error:'' @ [CHR 0x0A] @ info_log pr))
      else ([Call ''gl.createProgram'', Call ''gl.attachShader'', Call ''gl.attachShader'',
             Call ''gl.linkProgram''],
            Inr ()))"

text \<open>Lines 172-191 and 275-280: the calls of a successful set-up, around \<open>syncSize\<close>.\<close>

definition setup_calls :: "effect list" where
  "setup_calls =
     [Call ''gl.createBuffer'', Call ''gl.bindBuffer'', Call ''gl.bufferData'',
      Call ''gl.useProgram'', Call ''gl.enableVertexAttribArray'',
      Call ''gl.vertexAttribPointer'', Call ''gl.enable'', Call ''gl.blendFunc'',
      Call ''gl.clearColor'', Call ''ResizeObserver.observe'',
      Call ''gl.viewport'', Call ''gl.clear'', Call ''gl.uniform3fv'', Call ''gl.drawArrays'',
      Call ''container.addEventListener mousemove'',
      Call ''container.addEventListener mouseleave'']"

definition mount ::
  "HTMLCanvasElement option \<Rightarrow> HTMLElement option \<Rightarrow> real \<Rightarrow> effect list \<times> mount_result" where
  "mount canvasRef containerRef now =
     (case canvasRef of
        None \<Rightarrow> ([], Inactive)
      | Some canvas \<Rightarrow>
     (case containerRef of
        None \<Rightarrow> ([], Inactive)
      | Some container \<Rightarrow>
     (case getContext_webgl canvas of
        None \<Rightarrow>
          ([Call ''canvas.getContext'',
            ConsoleWarn ''useWebGLGrid: WebGL is not supported in this browser.''],
           Inactive)
      | Some gl \<Rightarrow>
     (case compileShader (vertex_shader gl) of
        (fx1, Inl err) \<Rightarrow> (Call ''canvas.getContext'' # fx1, Threw err)
      | (fx1, Inr _) \<Rightarrow>
     (case compileShader (fragment_shader gl) of
        (fx2, Inl err) \<Rightarrow> (Call ''canvas.getContext'' # fx1 @ fx2, Threw err)
      | (fx2, Inr _) \<Rightarrow>
     (case linkProgram (program_object gl) of
        (fx3, Inl err) \<Rightarrow> (Call ''canvas.getContext'' # fx1 @ fx2 @ fx3, Threw err)
      | (fx3, Inr _) \<Rightarrow>
          (Call ''canvas.getContext'' # fx1 @ fx2 @ fx3 @ setup_calls,
           Active (syncSize (clientWidth container) (clientHeight container) now
                     (fresh (initial_width canvas) (initial_height canvas))))))))))"

text \<open>Events reach the handlers only through the listeners and the observer a
  successful mount registers, and frames only through \<open>requestAnimationFrame\<close>.\<close>

definition deliver :: "event \<Rightarrow> mount_result \<Rightarrow> mount_result" where
  "deliver ev r = (case r of Active st \<Rightarrow> Active (step ev st) | Inactive \<Rightarrow> Inactive | Threw err \<Rightarrow> Threw err)"

subsection \<open>Vocabulary of the properties\<close>

text \<open>The trail is kept newest first: timestamps do not increase along the list.\<close>

definition time_ordered :: "TrailPoint list \<Rightarrow> bool" where
  "time_ordered tr = sorted_wrt (\<lambda>p q. tp_t q \<le> tp_t p) tr"

text \<open>The timestamps of the pointer moves in a sequence of events, in order. They come
  from \<open>performance.now()\<close>, a monotonic clock.\<close>

fun move_times :: "event list \<Rightarrow> real list" where
  "move_times [] = []"
| "move_times (MouseMove rect e now # evs) = now # move_times evs"
| "move_times (MouseLeave # evs) = move_times evs"
| "move_times (Resize w h now # evs) = move_times evs"
| "move_times (AnimationFrame now # evs) = move_times evs"




text \<open>The slot of a trail point in the buffer: its position and its influence at time
  \<open>now\<close>. The shape \<open>render\<close> relies on: the buffer has its \<open>TRAIL_MAX * 3\<close> entries and
  the trail fits into it.\<close>

definition uniform_slot :: "real \<Rightarrow> TrailPoint \<Rightarrow> real list" where
  "uniform_slot now p = [tp_x p, tp_y p, max 0 (1 - (now - tp_t p) / TRAIL_DURATION)]"


text \<open>The state of the frame handle: \<open>rafId\<close> is \<open>null\<close> and no callback waits, or it is
  the handle of the one callback that waits.\<close>

definition one_pending :: "hook_state \<Rightarrow> bool" where
  "one_pending st =
     (case rafId st of None \<Rightarrow> raf_pending st = [] | Some h \<Rightarrow> raf_pending st = [h])"

text \<open>The stored influence of a uniform slot, \<open>u_trail[i].z\<close>.\<close>

definition influence_of :: "vec3 \<Rightarrow> real" where
  "influence_of v = snd (snd v)"

subsection \<open>Concrete instances for the examples\<close>

text \<open>A canvas of 100 by 100 pixels under a container of the same size at the origin
  of the viewport, and the pointer event that \<open>onMouseMove\<close> maps to the canvas position
  \<open>(x, y)\<close> there.\<close>

definition canvas100 :: hook_state where
  "canvas100 = fresh 100 100"

definition rect100 :: DOMRect where
  "rect100 = \<lparr>rect_left = 0, rect_top = 0, rect_width = 100, rect_height = 100\<rparr>"

definition pointer_at :: "real \<Rightarrow> real \<Rightarrow> MouseEvent" where
  "pointer_at x y = \<lparr>clientX = x, clientY = 100 - y\<rparr>"

text \<open>The point recorded at the origin at \<open>t = 0\<close>, a state whose trail holds just that
  point, and the same state over a buffer that an earlier, longer trail has filled.\<close>

definition point0 :: TrailPoint where
  "point0 = \<lparr>tp_x = 0, tp_y = 0, tp_t = 0\<rparr>"

definition single_point :: hook_state where
  "single_point = canvas100\<lparr>trail := [point0]\<rparr>"


text \<open>A uniform array with two trail points at full influence, both at the centre of
  the cell in the corner of the canvas.\<close>

definition two_points :: "nat \<Rightarrow> vec3" where
  "two_points i = (if i < 2 then (24, 24, 1) else (0, 0, 0))"

text \<open>A canvas that gives no WebGL context, and a container.\<close>

definition no_webgl :: HTMLCanvasElement where
  "no_webgl = \<lparr>getContext_webgl = None, initial_width = 300, initial_height = 150\<rparr>"

definition hero :: HTMLElement where
  "hero = \<lparr>clientWidth = 100, clientHeight = 100\<rparr>"

section \<open>Properties\<close>

subsection \<open>Projections of the handlers\<close>

lemma render_trail [simp]: "trail (render now st) = trail st"
  and render_rafId [simp]: "rafId (render now st) = rafId st"
  and render_raf_pending [simp]: "raf_pending (render now st) = raf_pending st"
  and render_raf_counter [simp]: "raf_counter (render now st) = raf_counter st"
  by (simp_all add: render_def Let_def)

lemma tick_trail: "trail (tick now st) = expire (now - TRAIL_DURATION) (trail st)"
  by (simp add: tick_def Let_def requestAnimationFrame_def)

lemma tick_rafId:
  "rafId (tick now st) =
     (if expire (now - TRAIL_DURATION) (trail st) = [] then None else Some (Suc (raf_counter st)))"
  by (simp add: tick_def Let_def requestAnimationFrame_def)

lemma tick_raf_pending:
  "raf_pending (tick now st) =
     (if expire (now - TRAIL_DURATION) (trail st) = [] then raf_pending st
      else raf_pending st @ [Suc (raf_counter st)])"
  by (simp add: tick_def Let_def requestAnimationFrame_def)

lemma tick_raf_counter:
  "raf_counter (tick now st) =
     (if expire (now - TRAIL_DURATION) (trail st) = [] then raf_counter st
      else Suc (raf_counter st))"
  by (simp add: tick_def Let_def requestAnimationFrame_def)

lemma startLoop_trail [simp]: "trail (startLoop st) = trail st"
  by (simp add: startLoop_def requestAnimationFrame_def Let_def)

lemma startLoop_eq:
  "startLoop st =
     (if rafId st = None
      then st\<lparr>raf_pending := raf_pending st @ [Suc (raf_counter st)],
              raf_counter := Suc (raf_counter st), rafId := Some (Suc (raf_counter st))\<rparr>
      else st)"
  by (simp add: startLoop_def requestAnimationFrame_def Let_def)

lemma startLoop_canvas [simp]:
  "canvas_width (startLoop st) = canvas_width st" "canvas_height (startLoop st) = canvas_height st"
  by (simp_all add: startLoop_eq)

lemma unshift_capped_take: "unshift_capped p tr = take TRAIL_MAX (p # tr)"
  by (simp add: unshift_capped_def Let_def)

lemma onMouseMove_trail:
  "trail (onMouseMove rect e now st) =
     (if too_close (pointer_x st rect e) (pointer_y st rect e) (trail st) then trail st
      else take TRAIL_MAX
             (\<lparr>tp_x = pointer_x st rect e, tp_y = pointer_y st rect e, tp_t = now\<rparr> # trail st))"
  by (simp add: onMouseMove_def Let_def unshift_capped_take)

lemma onMouseMove_canvas [simp]:
  "canvas_width (onMouseMove rect e now st) = canvas_width st"
  "canvas_height (onMouseMove rect e now st) = canvas_height st"
  by (simp_all add: onMouseMove_def Let_def)

lemma syncSize_trail [simp]: "trail (syncSize w h now st) = trail st"
  by (simp add: syncSize_def)

lemma syncSize_raf [simp]:
  "rafId (syncSize w h now st) = rafId st"
  "raf_pending (syncSize w h now st) = raf_pending st"
  "raf_counter (syncSize w h now st) = raf_counter st"
  by (simp_all add: syncSize_def)

lemma animationFrame_idle: "raf_pending st = [] \<Longrightarrow> animationFrame now st = st"
  by (simp add: animationFrame_def)

lemma onMouseMove_eq:
  "onMouseMove rect e now st =
     (if too_close (pointer_x st rect e) (pointer_y st rect e) (trail st) then st
      else startLoop
             (st\<lparr>trail := take TRAIL_MAX
                 (\<lparr>tp_x = pointer_x st rect e, tp_y = pointer_y st rect e, tp_t = now\<rparr>
                  # trail st)\<rparr>))"
  by (simp add: onMouseMove_def Let_def unshift_capped_take)

subsection \<open>The expiry loop\<close>

lemma expire_snoc:
  "expire cutoff (ys @ [z]) = (if tp_t z < cutoff then expire cutoff ys else ys @ [z])"
  by (subst expire.simps) simp

lemma expire_Nil [simp]: "expire cutoff [] = []"
  by (subst expire.simps) simp

lemma expire_single:
  "expire cutoff [p] = (if tp_t p < cutoff then [] else [p])"
  using expire_snoc [of cutoff "[]" p] by simp

lemma expire_filter:
  "sorted_wrt (\<lambda>p q. tp_t q \<le> tp_t p) tr \<Longrightarrow> expire cutoff tr = filter (\<lambda>p. \<not> tp_t p < cutoff) tr"
proof (induction tr rule: rev_induct)
  case Nil
  show ?case by simp
next
  case (snoc z ys)
  from snoc.prems have ord: "sorted_wrt (\<lambda>p q. tp_t q \<le> tp_t p) ys"
    and newer: "\<forall>p \<in> set ys. tp_t z \<le> tp_t p"
    by (simp_all add: sorted_wrt_append)
  show ?case
  proof (cases "tp_t z < cutoff")
    case True
    with snoc.IH [OF ord] show ?thesis by (simp add: expire_snoc)
  next
    case False
    with newer have "\<forall>p \<in> set ys. \<not> tp_t p < cutoff" by fastforce
    then have "filter (\<lambda>p. \<not> tp_t p < cutoff) ys = ys" by (simp add: filter_id_conv)
    with False show ?thesis by (simp add: expire_snoc)
  qed
qed

lemma expire_length: "length (expire cutoff tr) \<le> length tr"
  by (induction tr rule: rev_induct) (auto simp: expire_snoc)

lemma set_expire: "set (expire cutoff tr) \<subseteq> set tr"
  by (induction tr rule: rev_induct) (auto simp: expire_snoc)

subsection \<open>Invariants along a run\<close>

lemma run_invariant:
  assumes "\<And>ev s. I s \<Longrightarrow> I (step ev s)" and "I st"
  shows "I (run evs st)"
  using assms(2) unfolding run_def
  by (induction evs arbitrary: st) (simp_all add: assms(1))

lemma fold_tick_invariant:
  assumes "\<And>s. I s \<Longrightarrow> I (tick now s)" and "I st"
  shows "I (fold (\<lambda>h. tick now) hs st)"
  using assms(2) by (induction hs arbitrary: st) (simp_all add: assms(1))

lemma animationFrame_trail_invariant:
  assumes "\<And>c tr. P tr \<Longrightarrow> P (expire c tr)" and "P (trail st)"
  shows "P (trail (animationFrame now st))"
  unfolding animationFrame_def
  by (rule fold_tick_invariant [where I = "\<lambda>s. P (trail s)"]) (simp_all add: tick_trail assms)

subsection \<open>The example instance\<close>

lemma canvas100_simps [simp]:
  "canvas_width canvas100 = 100" "canvas_height canvas100 = 100" "trail canvas100 = []"
  "rafId canvas100 = None" "raf_pending canvas100 = []" "raf_counter canvas100 = 0"
  by (simp_all add: canvas100_def fresh_def)

lemma pointer_at_xy:
  "canvas_width st = 100 \<Longrightarrow> pointer_x st rect100 (pointer_at x y) = x"
  "canvas_height st = 100 \<Longrightarrow> pointer_y st rect100 (pointer_at x y) = y"
  by (simp_all add: pointer_x_def pointer_y_def rect100_def pointer_at_def)

lemma single_point_simps [simp]:
  "trail single_point = [point0]" "rafId single_point = None" "raf_pending single_point = []"
  "raf_counter single_point = 0" "length (trailData single_point) = 150"
  by (simp_all add: single_point_def canvas100_def fresh_def TRAIL_MAX_def)

lemma first_move:
  "onMouseMove rect100 (pointer_at 0 0) 0 canvas100
     = canvas100\<lparr>trail := [point0], raf_pending := [Suc 0], raf_counter := Suc 0,
                  rafId := Some (Suc 0)\<rparr>"
  by (simp add: onMouseMove_eq too_close_def pointer_at_xy startLoop_eq point0_def TRAIL_MAX_def)

subsection \<open>Expiry by age\<close>

lemma time_ordered_expire: "time_ordered tr \<Longrightarrow> time_ordered (expire cutoff tr)"
  by (simp add: expire_filter time_ordered_def sorted_wrt_filter)

lemma time_ordered_onMouseMove:
  assumes "time_ordered (trail st)" and "\<forall>p \<in> set (trail st). tp_t p \<le> now"
  shows "time_ordered (trail (onMouseMove rect e now st))"
proof -
  let ?p = "\<lparr>tp_x = pointer_x st rect e, tp_y = pointer_y st rect e, tp_t = now\<rparr>"
  have "time_ordered (?p # trail st)"
    using assms by (simp add: time_ordered_def)
  then have "time_ordered (take TRAIL_MAX (?p # trail st))"
    unfolding time_ordered_def by (rule sorted_wrt_take)
  with assms(1) show ?thesis by (simp add: onMouseMove_trail)
qed

lemma set_trail_onMouseMove:
  "p \<in> set (trail (onMouseMove rect e now st)) \<Longrightarrow> p \<in> set (trail st) \<or> tp_t p = now"
  by (auto simp: onMouseMove_trail split: if_splits dest!: in_set_takeD)

lemma time_ordered_run_from:
  assumes "time_ordered (trail st)" and "sorted (move_times evs)"
    and "\<forall>p \<in> set (trail st). \<forall>t \<in> set (move_times evs). tp_t p \<le> t"
  shows "time_ordered (trail (run evs st))"
  using assms
proof (induction evs arbitrary: st)
  case Nil
  then show ?case by (simp add: run_def)
next
  case (Cons ev evs)
  have run_Cons: "run (ev # evs) st = run evs (step ev st)"
    by (simp add: run_def)
  show ?case
  proof (cases ev)
    case (MouseMove rect e now)
    with Cons.prems have older: "\<forall>p \<in> set (trail st). tp_t p \<le> now"
      and later: "\<forall>t \<in> set (move_times evs). now \<le> t"
      and sorted: "sorted (move_times evs)"
      by simp_all
    have "time_ordered (trail (onMouseMove rect e now st))"
      using Cons.prems(1) older by (rule time_ordered_onMouseMove)
    moreover have "\<forall>p \<in> set (trail (onMouseMove rect e now st)).
                     \<forall>t \<in> set (move_times evs). tp_t p \<le> t"
      using Cons.prems(3) later MouseMove
      by (auto dest!: set_trail_onMouseMove)
    ultimately show ?thesis
      using Cons.IH [of "onMouseMove rect e now st"] sorted MouseMove run_Cons by simp
  next
    case MouseLeave
    with Cons.prems Cons.IH [of "onMouseLeave st"] run_Cons show ?thesis
      by (simp add: onMouseLeave_def)
  next
    case (Resize w h now)
    with Cons.prems Cons.IH [of "syncSize w h now st"] run_Cons show ?thesis
      by simp
  next
    case (AnimationFrame now)
    have "time_ordered (trail (animationFrame now st))"
      using animationFrame_trail_invariant
        [where P = time_ordered, OF time_ordered_expire Cons.prems(1)]
      by simp
    moreover have "set (trail (animationFrame now st)) \<subseteq> set (trail st)"
      by (rule animationFrame_trail_invariant [where P = "\<lambda>tr. set tr \<subseteq> set (trail st)"])
        (use set_expire in auto)
    ultimately show ?thesis
      using Cons.prems Cons.IH [of "animationFrame now st"] AnimationFrame run_Cons
      by (simp add: subset_iff)
  qed
qed

text \<open>Under a monotonic clock every reachable trail is newest first, so the hypothesis
  of the next theorem holds wherever \<open>tick\<close> can be called.\<close>

lemma time_ordered_run:
  "sorted (move_times evs) \<Longrightarrow> time_ordered (trail (run evs (fresh w h)))"
  by (rule time_ordered_run_from) (simp_all add: fresh_def time_ordered_def)

text \<open>
  Claim C1, as the code has it. \<open>tick\<close> pops a point only while its timestamp is
  strictly below \<open>now - TRAIL_DURATION\<close>. On a trail that is newest first, after
  \<open>tick(now)\<close> the trail is exactly the points of age at most \<open>TRAIL_DURATION\<close>, in their
  order: every point whose age is strictly greater than \<open>TRAIL_DURATION\<close> is absent, and
  a point of age exactly \<open>TRAIL_DURATION\<close> stays for this frame. When every point is
  older than \<open>TRAIL_DURATION\<close> the trail becomes empty, the frame handle becomes \<open>null\<close>
  and no callback is added.
\<close>

theorem tick_expires_older:
  assumes "time_ordered (trail st)"
  shows "trail (tick now st) = filter (\<lambda>p. now - tp_t p \<le> TRAIL_DURATION) (trail st)
    \<and> (\<forall>p. TRAIL_DURATION < now - tp_t p \<longrightarrow> p \<notin> set (trail (tick now st)))
    \<and> ((\<forall>p \<in> set (trail st). TRAIL_DURATION < now - tp_t p) \<longrightarrow>
          trail (tick now st) = [] \<and> rafId (tick now st) = None
          \<and> raf_pending (tick now st) = raf_pending st)"
proof -
  have eq: "(\<lambda>p. \<not> tp_t p < now - TRAIL_DURATION) = (\<lambda>p. now - tp_t p \<le> TRAIL_DURATION)"
    by (rule ext) auto
  have tr: "trail (tick now st) = filter (\<lambda>p. now - tp_t p \<le> TRAIL_DURATION) (trail st)"
    using assms by (simp add: tick_trail expire_filter time_ordered_def eq)
  moreover have "\<forall>p. TRAIL_DURATION < now - tp_t p \<longrightarrow> p \<notin> set (trail (tick now st))"
    by (simp add: tr)
  moreover have "trail (tick now st) = [] \<and> rafId (tick now st) = None
          \<and> raf_pending (tick now st) = raf_pending st"
    if "\<forall>p \<in> set (trail st). TRAIL_DURATION < now - tp_t p"
  proof -
    from that have "filter (\<lambda>p. now - tp_t p \<le> TRAIL_DURATION) (trail st) = []"
      by (auto simp: filter_empty_conv)
    with tr have "expire (now - TRAIL_DURATION) (trail st) = []" by (simp add: tick_trail)
    then show ?thesis by (simp add: tick_trail tick_rafId tick_raf_pending)
  qed
  ultimately show ?thesis by blast
qed

theorem tick_expires_older_witness:
  "time_ordered (trail single_point)
   \<and> set (trail single_point) = {point0} \<and> TRAIL_DURATION < 501 - tp_t point0
   \<and> trail (tick 501 single_point) = []
   \<and> rafId (tick 501 single_point) = None
   \<and> raf_pending (tick 501 single_point) = []
   \<and> trail (tick 500 single_point) = [point0]"
  using tick_expires_older [of single_point 501] tick_expires_older [of single_point 500]
  by (simp add: time_ordered_def point0_def TRAIL_DURATION_def)

text \<open>
  Claim C1 as stated fails at its own scenario: the point recorded at \<open>t = 0\<close> has age
  \<open>500 \<ge> TRAIL_DURATION\<close> at the tick of \<open>now = 500\<close>, it is still in the trail after
  that tick, and the tick requests a further frame.
\<close>

theorem tick_at_duration_counterexample:
  "trail (onMouseMove rect100 (pointer_at 0 0) 0 canvas100) = [point0]
   \<and> TRAIL_DURATION \<le> 500 - tp_t point0
   \<and> point0 \<in> set (trail (tick 500 (onMouseMove rect100 (pointer_at 0 0) 0 canvas100)))
   \<and> rafId (tick 500 (onMouseMove rect100 (pointer_at 0 0) 0 canvas100)) \<noteq> None"
  by (simp add: first_move tick_trail tick_rafId expire_single point0_def TRAIL_DURATION_def)

subsection \<open>The minimum-distance filter\<close>











subsection \<open>The uniform buffer\<close>

lemma update_three:
  "3 \<le> length B \<Longrightarrow> B[0 := a, Suc 0 := b, 2 := c] = a # b # c # drop 3 B"
proof -
  assume "3 \<le> length B"
  then obtain b0 b1 b2 rest where "B = b0 # b1 # b2 # rest"
    by (metis Suc_le_length_iff numeral_3_eq_3)
  then show ?thesis by simp
qed

lemma write_slot_append:
  assumes "length A = n * 3" and "3 \<le> length B" and "n < length tr"
  shows "write_slot now tr n (A @ B) = A @ uniform_slot now (tr ! n) @ drop 3 B"
  using assms update_three [of B]
  by (simp add: write_slot_def Let_def list_update_append uniform_slot_def)

lemma length_concat_slots [simp]: "length (concat (map (uniform_slot now) ps)) = length ps * 3"
  by (induction ps) (simp_all add: uniform_slot_def)

lemma fold_write_slot:
  "n \<le> length tr \<Longrightarrow> n * 3 \<le> length td \<Longrightarrow>
   fold (write_slot now tr) [0..<n] td =
     concat (map (uniform_slot now) (take n tr)) @ drop (n * 3) td"
proof (induction n)
  case 0
  then show ?case by simp
next
  case (Suc n)
  then have IH: "fold (write_slot now tr) [0..<n] td =
     concat (map (uniform_slot now) (take n tr)) @ drop (n * 3) td"
    by simp
  have len: "length (concat (map (uniform_slot now) (take n tr))) = n * 3"
    using Suc.prems by simp
  have "fold (write_slot now tr) [0..<Suc n] td =
          write_slot now tr n (concat (map (uniform_slot now) (take n tr)) @ drop (n * 3) td)"
    by (simp add: IH)
  also have "\<dots> = concat (map (uniform_slot now) (take n tr)) @ uniform_slot now (tr ! n)
                    @ drop 3 (drop (n * 3) td)"
    using Suc.prems by (intro write_slot_append len) simp_all
  also have "\<dots> = concat (map (uniform_slot now) (take (Suc n) tr)) @ drop (Suc n * 3) td"
    using Suc.prems by (simp add: take_Suc_conv_app_nth add.commute)
  finally show ?case .
qed

lemma render_trailData:
  assumes "length (trail st) * 3 \<le> length (trailData st)"
  shows "trailData (render now st) =
           concat (map (uniform_slot now) (trail st))
           @ replicate (length (trailData st) - length (trail st) * 3) 0"
  using assms fold_write_slot [of "length (trail st)" "trail st" "replicate (length (trailData st)) 0" now]
  by (simp add: render_def Let_def)

lemma render_gl_u_trail: "gl_u_trail (render now st) = trailData (render now st)"
  by (simp add: render_def Let_def)

lemma concat_slots_nth:
  "i < length ps \<Longrightarrow> k < 3 \<Longrightarrow>
   (concat (map (uniform_slot now) ps) @ rest) ! (i * 3 + k) = uniform_slot now (ps ! i) ! k"
proof (induction ps arbitrary: i)
  case Nil
  then show ?case by simp
next
  case (Cons p ps)
  show ?case
  proof (cases i)
    case 0
    from Cons.prems(2) have "k = 0 \<or> k = 1 \<or> k = 2" by arith
    with 0 show ?thesis by (auto simp: uniform_slot_def)
  next
    case (Suc j)
    have "(uniform_slot now p @ concat (map (uniform_slot now) ps) @ rest) ! (3 + (j * 3 + k))
          = (concat (map (uniform_slot now) ps) @ rest) ! (j * 3 + k)"
      by (simp add: uniform_slot_def)
    with Cons Suc show ?thesis by (simp add: add.commute add.left_commute)
  qed
qed

lemma render_slot:
  assumes "i < length (trail st)" and "length (trail st) * 3 \<le> length (trailData st)"
  shows "trailData (render now st) ! (i * 3) = tp_x (trail st ! i)"
    and "trailData (render now st) ! (i * 3 + 1) = tp_y (trail st ! i)"
    and "trailData (render now st) ! (i * 3 + 2)
           = max 0 (1 - (now - tp_t (trail st ! i)) / TRAIL_DURATION)"
  using concat_slots_nth [OF assms(1), of 0 now] concat_slots_nth [OF assms(1), of 1 now]
    concat_slots_nth [OF assms(1), of 2 now]
  by (simp_all add: render_trailData [OF assms(2)] uniform_slot_def)

lemma render_rest:
  assumes "length (trail st) * 3 \<le> length (trailData st)"
    and "length (trail st) * 3 \<le> j" and "j < length (trailData st)"
  shows "trailData (render now st) ! j = 0"
  using assms by (simp add: render_trailData nth_append)





lemma startLoop_trailData [simp]: "trailData (startLoop st) = trailData st"
  by (simp add: startLoop_eq)

lemma onMouseMove_trailData [simp]: "trailData (onMouseMove rect e now st) = trailData st"
  by (simp add: onMouseMove_eq)








subsection \<open>The bound on the trail\<close>

lemma trail_length_step:
  "length (trail st) \<le> TRAIL_MAX \<Longrightarrow> length (trail (step ev st)) \<le> TRAIL_MAX"
proof (cases ev)
  case (MouseMove rect e now)
  assume "length (trail st) \<le> TRAIL_MAX"
  with MouseMove show ?thesis by (simp add: onMouseMove_trail)
next
  case (AnimationFrame now)
  assume "length (trail st) \<le> TRAIL_MAX"
  then have "length (trail (animationFrame now st)) \<le> TRAIL_MAX"
    by (rule animationFrame_trail_invariant [where P = "\<lambda>tr. length tr \<le> TRAIL_MAX", rotated])
      (rule le_trans [OF expire_length])
  with AnimationFrame show ?thesis by simp
qed (simp_all add: onMouseLeave_def)

lemma trail_length_run: "length (trail (run evs (fresh w h))) \<le> TRAIL_MAX"
proof (rule run_invariant [where I = "\<lambda>s. length (trail s) \<le> TRAIL_MAX"])
  show "length (trail (fresh w h)) \<le> TRAIL_MAX" by (simp add: fresh_def)
qed (rule trail_length_step)

text \<open>
  Claim C4. Whatever pointer moves, pointer leaves, resizes and animation frames an
  instance goes through, its trail never holds more than \<open>TRAIL_MAX\<close> points. A move
  that is recorded leaves the new point followed by the old trail, cut to its first
  \<open>TRAIL_MAX\<close> entries: on a full trail the entries at the tail are dropped and the
  length is \<open>TRAIL_MAX\<close> again.
\<close>

theorem trail_never_exceeds_max:
  "length (trail (run evs (fresh w h))) \<le> TRAIL_MAX
   \<and> (\<not> too_close (pointer_x st rect e) (pointer_y st rect e) (trail st) \<longrightarrow>
        trail (onMouseMove rect e now st)
          = take TRAIL_MAX
              (\<lparr>tp_x = pointer_x st rect e, tp_y = pointer_y st rect e, tp_t = now\<rparr> # trail st))
   \<and> (\<not> too_close (pointer_x st rect e) (pointer_y st rect e) (trail st)
        \<and> TRAIL_MAX \<le> length (trail st) \<longrightarrow>
        length (trail (onMouseMove rect e now st)) = TRAIL_MAX)"
  by (simp add: trail_length_run onMouseMove_trail)

theorem trail_never_exceeds_max_witness:
  "length (trail (run [MouseMove rect100 (pointer_at 0 0) 0, AnimationFrame 16] (fresh 100 100)))
     \<le> TRAIL_MAX
   \<and> \<not> too_close 10 0 (replicate 50 point0)
   \<and> trail (onMouseMove rect100 (pointer_at 10 0) 1 (canvas100\<lparr>trail := replicate 50 point0\<rparr>))
       = \<lparr>tp_x = 10, tp_y = 0, tp_t = 1\<rparr> # replicate 49 point0
   \<and> length (trail (onMouseMove rect100 (pointer_at 10 0) 1
                      (canvas100\<lparr>trail := replicate 50 point0\<rparr>))) = 50"
proof -
  have rep: "replicate 50 point0 = point0 # replicate 49 point0"
    using replicate_Suc [of 49 point0] by simp
  have far: "\<not> too_close 10 0 (replicate 50 point0)"
    unfolding rep by (simp add: too_close_def point0_def TRAIL_MIN_DIST_def Let_def)
  have "take 50 (p # replicate 50 point0) = p # replicate 49 point0" for p
    by (simp add: take_Cons')
  with far show ?thesis
    using trail_never_exceeds_max [of "[MouseMove rect100 (pointer_at 0 0) 0, AnimationFrame 16]"
        100 100 "canvas100\<lparr>trail := replicate 50 point0\<rparr>" rect100 "pointer_at 10 0" 1]
    by (simp add: pointer_at_xy TRAIL_MAX_def)
qed

subsection \<open>Frame scheduling\<close>

lemma one_pending_startLoop: "one_pending st \<Longrightarrow> one_pending (startLoop st)"
  by (auto simp: one_pending_def startLoop_eq split: option.splits)

lemma one_pending_tick: "raf_pending st = [] \<Longrightarrow> one_pending (tick now st)"
  by (simp add: one_pending_def tick_rafId tick_raf_pending)

lemma one_pending_animationFrame:
  assumes "one_pending st"
  shows "one_pending (animationFrame now st)"
proof (cases "rafId st")
  case None
  with assms have "raf_pending st = []" by (simp add: one_pending_def)
  with assms show ?thesis by (simp add: animationFrame_idle)
next
  case (Some h)
  with assms have "raf_pending st = [h]" by (simp add: one_pending_def)
  then have "animationFrame now st = tick now (st\<lparr>raf_pending := []\<rparr>)"
    by (simp add: animationFrame_def)
  then show ?thesis by (simp add: one_pending_tick)
qed

lemma one_pending_onMouseMove: "one_pending st \<Longrightarrow> one_pending (onMouseMove rect e now st)"
proof -
  assume inv: "one_pending st"
  then have "one_pending (st\<lparr>trail := tr\<rparr>)" for tr
    by (simp add: one_pending_def split: option.splits)
  then show ?thesis
    using inv by (simp add: onMouseMove_def Let_def one_pending_startLoop)
qed

lemma one_pending_syncSize: "one_pending st \<Longrightarrow> one_pending (syncSize w h now st)"
  by (simp add: one_pending_def split: option.splits)

lemma one_pending_step: "one_pending st \<Longrightarrow> one_pending (step ev st)"
  by (cases ev)
    (simp_all add: one_pending_onMouseMove onMouseLeave_def one_pending_startLoop
      one_pending_animationFrame one_pending_syncSize)

lemma one_pending_run: "one_pending (run evs (fresh w h))"
proof (rule run_invariant [where I = one_pending])
  show "one_pending (fresh w h)" by (simp add: one_pending_def fresh_def)
qed (rule one_pending_step)

lemma one_pending_length: "one_pending st \<Longrightarrow> length (raf_pending st) \<le> 1"
  by (simp add: one_pending_def split: option.splits)

text \<open>
  Claim C6, as the code has it. If the trail is empty after the expiry step of
  \<open>tick(now)\<close>, the tick requests no frame and the handle becomes \<open>null\<close>; otherwise it
  requests exactly one. While the handle is \<open>null\<close> and nothing waits, an animation frame
  does nothing and a resize requests nothing; the next request comes from the next
  pointer event: a pointer leave, which requests a frame and records nothing, or a
  pointer move, which on the empty trail records its point and requests a frame.
\<close>

theorem tick_schedules_next_frame:
  "(trail (tick now st) = [] \<longrightarrow>
      rafId (tick now st) = None \<and> raf_pending (tick now st) = raf_pending st)
   \<and> (trail (tick now st) \<noteq> [] \<longrightarrow>
      rafId (tick now st) = Some (Suc (raf_counter st))
      \<and> raf_pending (tick now st) = raf_pending st @ [Suc (raf_counter st)])
   \<and> (rafId st = None \<and> raf_pending st = [] \<longrightarrow>
      animationFrame t st = st
      \<and> rafId (syncSize w h t st) = None \<and> raf_pending (syncSize w h t st) = []
      \<and> rafId (onMouseLeave st) = Some (Suc (raf_counter st))
      \<and> raf_pending (onMouseLeave st) = [Suc (raf_counter st)]
      \<and> trail (onMouseLeave st) = trail st
      \<and> (trail st = [] \<longrightarrow>
            trail (onMouseMove rect e t st)
              = [\<lparr>tp_x = pointer_x st rect e, tp_y = pointer_y st rect e, tp_t = t\<rparr>]
            \<and> rafId (onMouseMove rect e t st) = Some (Suc (raf_counter st))
            \<and> raf_pending (onMouseMove rect e t st) = [Suc (raf_counter st)]))"
  by (simp add: tick_trail tick_rafId tick_raf_pending animationFrame_idle onMouseLeave_def
      startLoop_eq onMouseMove_def too_close_def unshift_capped_take TRAIL_MAX_def Let_def)

theorem tick_schedules_next_frame_witness:
  "trail (tick 600 single_point) = [] \<and> rafId (tick 600 single_point) = None
   \<and> trail (tick 100 single_point) \<noteq> [] \<and> rafId (tick 100 single_point) = Some 1
   \<and> raf_pending (tick 100 single_point) = [1]
   \<and> rafId canvas100 = None \<and> raf_pending canvas100 = [] \<and> trail canvas100 = []
   \<and> animationFrame 16 canvas100 = canvas100
   \<and> rafId (syncSize 300 150 16 canvas100) = None
   \<and> rafId (onMouseLeave canvas100) = Some 1
   \<and> trail (onMouseMove rect100 (pointer_at 0 0) 0 canvas100) = [point0]
   \<and> rafId (onMouseMove rect100 (pointer_at 0 0) 0 canvas100) = Some 1"
  using tick_schedules_next_frame [where now = 600 and st = single_point]
    tick_schedules_next_frame [where now = 100 and st = single_point]
    tick_schedules_next_frame [where st = canvas100 and t = 16 and w = 300 and h = 150]
    tick_schedules_next_frame [where st = canvas100 and t = 0 and rect = rect100
      and e = "pointer_at 0 0"]
  by (simp add: tick_trail expire_single point0_def TRAIL_DURATION_def pointer_at_xy)

text \<open>
  Claim C6 as stated fails: after the point recorded at \<open>t = 0\<close> has expired at the frame
  of \<open>now = 600\<close> the trail is empty and the handle is \<open>null\<close>; a pointer leave then
  requests a frame although no new point has been recorded.
\<close>

theorem idle_loop_restart_counterexample:
  "trail (run [MouseMove rect100 (pointer_at 0 0) 0, AnimationFrame 600] canvas100) = []
   \<and> rafId (run [MouseMove rect100 (pointer_at 0 0) 0, AnimationFrame 600] canvas100) = None
   \<and> trail (run [MouseMove rect100 (pointer_at 0 0) 0, AnimationFrame 600, MouseLeave] canvas100)
       = []
   \<and> rafId (run [MouseMove rect100 (pointer_at 0 0) 0, AnimationFrame 600, MouseLeave] canvas100)
       = Some 2
   \<and> raf_pending (run [MouseMove rect100 (pointer_at 0 0) 0, AnimationFrame 600, MouseLeave] canvas100)
       = [2]"
  by (simp add: run_def first_move animationFrame_def tick_trail tick_rafId tick_raf_pending
      tick_raf_counter expire_single onMouseLeave_def startLoop_eq point0_def TRAIL_DURATION_def)

text \<open>
  Claim C8. The pointer-leave handler leaves the trail as it is. When a frame is
  already requested it changes nothing at all; when none is, it requests one, and the
  handle, the browser's list of waiting callbacks and its handle counter are the only
  fields that change.
\<close>

theorem onMouseLeave_only_restarts_loop:
  "trail (onMouseLeave st) = trail st
   \<and> (rafId st \<noteq> None \<longrightarrow> onMouseLeave st = st)
   \<and> (rafId st = None \<longrightarrow>
        onMouseLeave st
          = st\<lparr>raf_pending := raf_pending st @ [Suc (raf_counter st)],
               raf_counter := Suc (raf_counter st), rafId := Some (Suc (raf_counter st))\<rparr>)"
  by (simp add: onMouseLeave_def startLoop_eq)

theorem onMouseLeave_only_restarts_loop_witness:
  "rafId canvas100 = None
   \<and> onMouseLeave canvas100
       = canvas100\<lparr>raf_pending := [1], raf_counter := 1, rafId := Some 1\<rparr>
   \<and> rafId (onMouseLeave canvas100) \<noteq> None
   \<and> onMouseLeave (onMouseLeave canvas100) = onMouseLeave canvas100"
  using onMouseLeave_only_restarts_loop [of canvas100]
    onMouseLeave_only_restarts_loop [of "onMouseLeave canvas100"]
  by simp

text \<open>
  Claim C10. In every state an instance can reach at most one frame callback waits,
  and it is the one \<open>rafId\<close> names. \<open>startLoop\<close> on a non-null handle changes nothing,
  and a tick adds at most one callback to the browser's list.
\<close>

theorem at_most_one_pending_frame:
  "one_pending (run evs (fresh w h))
   \<and> length (raf_pending (run evs (fresh w h))) \<le> 1
   \<and> (rafId st \<noteq> None \<longrightarrow> startLoop st = st)
   \<and> length (raf_pending (tick now st)) \<le> Suc (length (raf_pending st))"
proof -
  have "length (raf_pending (run evs (fresh w h))) \<le> 1"
    by (rule one_pending_length) (rule one_pending_run)
  then show ?thesis
    by (simp add: one_pending_run startLoop_eq tick_raf_pending)
qed

theorem at_most_one_pending_frame_witness:
  "rafId (onMouseLeave canvas100) \<noteq> None
   \<and> startLoop (onMouseLeave canvas100) = onMouseLeave canvas100
   \<and> length (raf_pending (run [MouseLeave, MouseMove rect100 (pointer_at 0 0) 0, MouseLeave]
                 (fresh 100 100))) \<le> 1
   \<and> length (raf_pending (tick 100 single_point)) \<le> Suc (length (raf_pending single_point))"
  using at_most_one_pending_frame [of "[MouseLeave, MouseMove rect100 (pointer_at 0 0) 0, MouseLeave]"
      100 100 "onMouseLeave canvas100" 100 ]
    at_most_one_pending_frame [of "[]" 100 100 single_point 100]
  by (simp add: onMouseLeave_def startLoop_eq)

subsection \<open>The fragment shader\<close>

lemma smoothstep_range: "0 \<le> smoothstep a b v \<and> smoothstep a b v \<le> 1"
proof -
  define s where "s = min (max ((v - a) / (b - a)) 0) 1"
  have s: "0 \<le> s" "s \<le> 1" by (simp_all add: s_def)
  have "0 \<le> s * s * (3 - 2 * s)" using s by simp
  moreover have "1 - s * s * (3 - 2 * s) = (1 - s) * (1 - s) * (1 + 2 * s)"
    by (simp add: algebra_simps)
  then have "0 \<le> 1 - s * s * (3 - 2 * s)" using s by simp
  ultimately show ?thesis by (simp add: smoothstep_def s_def Let_def)
qed

lemma spatial_range: "0 \<le> spatial d" "spatial d \<le> 1"
  using smoothstep_range [of 0 HOVER_RADIUS d] by (simp_all add: spatial_def)

lemma spatial_zero: "spatial 0 = 1"
  by (simp add: spatial_def smoothstep_def HOVER_RADIUS_def)

lemma spatial_far: "HOVER_RADIUS \<le> d \<Longrightarrow> spatial d = 0"
  by (simp add: spatial_def smoothstep_def HOVER_RADIUS_def Let_def min_def max_def)

lemma spatial_mono: "d \<le> d' \<Longrightarrow> spatial d' \<le> spatial d"
proof -
  assume le: "d \<le> d'"
  define a where "a = min (max (d / 100) 0) 1"
  define b where "b = min (max (d' / 100) 0) 1"
  have ab: "0 \<le> a" "a \<le> b" "b \<le> 1"
    using le by (auto simp: a_def b_def min_def max_def)
  have "b * b * (3 - 2 * b) - a * a * (3 - 2 * a)
          = (b - a) * (3 * (a + b) - 2 * (a * a + a * b + b * b))"
    by (simp add: algebra_simps)
  moreover have "a * a \<le> a" "b * b \<le> b" "a * b \<le> a"
    using ab by (simp_all add: mult_left_le mult_left_le_one_le)
  then have "2 * (a * a) + 2 * (a * b) + 2 * (b * b) \<le> 3 * a + 3 * b"
    using ab by linarith
  then have "0 \<le> 3 * (a + b) - 2 * (a * a + a * b + b * b)"
    by (simp add: algebra_simps)
  ultimately have "0 \<le> b * b * (3 - 2 * b) - a * a * (3 - 2 * a)"
    using ab by simp
  then show ?thesis
    by (simp add: spatial_def smoothstep_def HOVER_RADIUS_def Let_def a_def b_def)
qed

lemma trail_slot_eq:
  "trail_slot u c i m = (if influence_of (u i) \<le> 0 then m else max m (slot_glow u c i))"
  by (cases "u i") (simp add: trail_slot_def slot_glow_def influence_of_def Let_def)

lemma slot_glow_sign: "influence_of (u i) \<le> 0 \<Longrightarrow> slot_glow u c i \<le> 0"
  by (cases "u i") (simp add: slot_glow_def influence_of_def mult_nonpos_nonneg spatial_range)

lemma slot_glow_nonneg: "0 \<le> influence_of (u i) \<Longrightarrow> 0 \<le> slot_glow u c i"
  by (cases "u i") (simp add: slot_glow_def influence_of_def spatial_range)

lemma Max_insert_below:
  fixes g :: real
  assumes "finite A" and "a \<in> A" and "g \<le> a"
  shows "Max (insert g A) = Max A"
proof -
  have "A \<noteq> {}" using assms(2) by auto
  then have "Max (insert g A) = max g (Max A)" using assms(1) by simp
  moreover have "a \<le> Max A" using assms(1,2) by simp
  ultimately show ?thesis using assms(3) by simp
qed

lemma Max_insert_max:
  fixes a b :: real
  assumes "finite S"
  shows "Max (insert (max a b) S) = Max (insert a (insert b S))"
proof (cases "S = {}")
  case True
  then show ?thesis by simp
next
  case False
  with assms show ?thesis by (simp add: max.assoc)
qed

lemma fold_trail_slot:
  "0 \<le> m \<Longrightarrow> fold (trail_slot u c) xs m = Max (insert m (slot_glow u c ` set xs))"
proof (induction xs arbitrary: m)
  case Nil
  then show ?case by simp
next
  case (Cons x xs)
  let ?S = "slot_glow u c ` set xs"
  have fin: "finite (insert m ?S)" by simp
  show ?case
  proof (cases "influence_of (u x) \<le> 0")
    case True
    then have "slot_glow u c x \<le> m" using slot_glow_sign [of u x c] Cons.prems by simp
    then have "Max (insert (slot_glow u c x) (insert m ?S)) = Max (insert m ?S)"
      by (intro Max_insert_below [OF fin, of m]) simp_all
    moreover have "trail_slot u c x m = m"
      using True by (simp add: trail_slot_eq)
    then have "fold (trail_slot u c) (x # xs) m = Max (insert m ?S)"
      using Cons.IH [OF Cons.prems] by simp
    moreover have "insert m (slot_glow u c ` set (x # xs)) = insert (slot_glow u c x) (insert m ?S)"
      by auto
    ultimately show ?thesis by simp
  next
    case False
    have "0 \<le> max m (slot_glow u c x)" using Cons.prems by simp
    then have "fold (trail_slot u c) xs (max m (slot_glow u c x))
                 = Max (insert (max m (slot_glow u c x)) ?S)"
      by (rule Cons.IH)
    also have "\<dots> = Max (insert m (insert (slot_glow u c x) ?S))"
      by (rule Max_insert_max) simp
    finally have "fold (trail_slot u c) xs (max m (slot_glow u c x))
                    = Max (insert m (insert (slot_glow u c x) ?S))" .
    moreover have "trail_slot u c x m = max m (slot_glow u c x)"
      using False by (simp add: trail_slot_eq)
    ultimately show ?thesis by simp
  qed
qed

lemma maxInfluence_Max:
  "maxInfluence u c = Max (insert 0 (slot_glow u c ` {..<TRAIL_MAX}))"
proof -
  have "set [0..<TRAIL_MAX] = {..<TRAIL_MAX}" by auto
  then show ?thesis
    using fold_trail_slot [of 0 u c "[0..<TRAIL_MAX]"] by (simp add: maxInfluence_def)
qed

lemma maxInfluence_Max_nonneg:
  assumes "\<forall>i < TRAIL_MAX. 0 \<le> influence_of (u i)"
  shows "maxInfluence u c = Max (slot_glow u c ` {..<TRAIL_MAX})"
proof -
  let ?S = "slot_glow u c ` {..<TRAIL_MAX}"
  have fin: "finite ?S" by simp
  have mem: "slot_glow u c 0 \<in> ?S" by (simp add: TRAIL_MAX_def)
  have "0 \<le> slot_glow u c 0"
    using assms by (intro slot_glow_nonneg) (simp add: TRAIL_MAX_def)
  then have "Max (insert 0 ?S) = Max ?S"
    by (rule Max_insert_below [OF fin mem])
  then show ?thesis by (simp only: maxInfluence_Max)
qed

lemma mix_zero:
  "mix vec4_zero (r, g, b, a) m = (r * m, g * m, b * m, a * m)"
  by (simp add: mix_def vec4_zero_def)

lemma frag_main_outside:
  "0 < sdf fc \<or> sdf fc \<le> - BORDER_WIDTH \<Longrightarrow> frag_main u fc = vec4_zero"
  by (auto simp: frag_main_def Let_def BORDER_WIDTH_def)

lemma frag_main_ring:
  "- BORDER_WIDTH < sdf fc \<and> sdf fc \<le> 0 \<Longrightarrow>
   frag_main u fc
     = (557 / 1000 * maxInfluence u (cellCenter fc), 196 / 1000 * maxInfluence u (cellCenter fc),
        4 / 1000 * maxInfluence u (cellCenter fc), maxInfluence u (cellCenter fc))"
  by (simp add: frag_main_def Let_def COLOR_BORDER_HOVER_def mix_zero)

text \<open>The uniform \<open>render\<close> uploads never holds a negative influence.\<close>

lemma render_influences_nonneg:
  assumes "length (trailData st) = TRAIL_MAX * 3" and "length (trail st) \<le> TRAIL_MAX"
    and "i < TRAIL_MAX"
  shows "0 \<le> influence_of (uniform3fv (gl_u_trail (render now st)) i)"
proof (cases "i < length (trail st)")
  case True
  with assms show ?thesis
    using render_slot(3) [of i st now]
    by (simp add: influence_of_def uniform3fv_def render_gl_u_trail)
next
  case False
  with assms show ?thesis
    using render_rest [of st "i * 3 + 2" now]
    by (simp add: influence_of_def uniform3fv_def render_gl_u_trail)
qed

text \<open>
  Claim C7. For every pixel and every value of the uniform array, \<open>main\<close> writes the
  transparent colour when the signed distance of the pixel to its cell is positive, and
  when it is \<open>-BORDER_WIDTH\<close> or less (the interior is never filled). In the ring
  between the two it writes the highlight colour scaled by \<open>maxInfluence\<close>: the largest
  of 0 and the products of stored influence and spatial falloff over the \<open>TRAIL_MAX\<close>
  slots, a maximum and not a sum. When no stored influence is negative, which is how
  \<open>render\<close> writes them, that is the maximum of the products over the slots. The falloff
  is 1 at distance 0, it is 0 from \<open>HOVER_RADIUS\<close> on, and it never grows with the
  distance.
\<close>

theorem frag_main_border_only:
  "(0 < sdf fc \<or> sdf fc \<le> - BORDER_WIDTH \<longrightarrow> frag_main u fc = vec4_zero)
   \<and> (- BORDER_WIDTH < sdf fc \<and> sdf fc \<le> 0 \<longrightarrow>
        frag_main u fc
          = (557 / 1000 * maxInfluence u (cellCenter fc), 196 / 1000 * maxInfluence u (cellCenter fc),
             4 / 1000 * maxInfluence u (cellCenter fc), maxInfluence u (cellCenter fc)))
   \<and> maxInfluence u c = Max (insert 0 (slot_glow u c ` {..<TRAIL_MAX}))
   \<and> ((\<forall>i < TRAIL_MAX. 0 \<le> influence_of (u i)) \<longrightarrow>
        maxInfluence u c = Max (slot_glow u c ` {..<TRAIL_MAX}))
   \<and> spatial 0 = 1 \<and> (HOVER_RADIUS \<le> d \<longrightarrow> spatial d = 0)
   \<and> (d \<le> d' \<longrightarrow> spatial d' \<le> spatial d)"
  using frag_main_outside [of fc u] frag_main_ring [of fc u] maxInfluence_Max [of u c]
    maxInfluence_Max_nonneg [of u c] spatial_zero spatial_far [of d] spatial_mono [of d d']
  by (intro conjI impI) assumption+

text \<open>A pixel in the gap, a pixel deep inside the cell and a pixel on the border ring,
  under two coinciding trail points of influence 1: the ring pixel gets the highlight
  colour once, not twice.\<close>

lemma glsl_length_axis [simp]: "glsl_length (a, 0) = \<bar>a\<bar>" "glsl_length (0, b) = \<bar>b\<bar>"
  by (simp_all add: glsl_length_def)

lemma cellCenter_examples:
  "cellCenter (1 / 2, 49 / 2) = (24, 24)" "cellCenter (49 / 2, 49 / 2) = (24, 24)"
  "cellCenter (11 / 2, 49 / 2) = (24, 24)"
  by (simp_all add: cellCenter_def GRID_SIZE_def Let_def)

lemma sdf_examples:
  "sdf (1 / 2, 49 / 2) = 7 / 2" "sdf (49 / 2, 49 / 2) = - 39 / 2" "sdf (11 / 2, 49 / 2) = - 3 / 2"
  by (simp_all add: sdf_def cellCenter_examples GRID_SIZE_def GRID_GAP_def CORNER_RADIUS_def Let_def)

lemma slot_glow_two_points:
  "slot_glow two_points (24, 24) i = (if i < 2 then 1 else 0)"
  by (simp add: slot_glow_def two_points_def spatial_zero)

theorem frag_main_border_only_witness:
  "sdf (1 / 2, 49 / 2) = 7 / 2 \<and> frag_main two_points (1 / 2, 49 / 2) = vec4_zero
   \<and> sdf (49 / 2, 49 / 2) = - 39 / 2 \<and> frag_main two_points (49 / 2, 49 / 2) = vec4_zero
   \<and> sdf (11 / 2, 49 / 2) = - 3 / 2 \<and> cellCenter (11 / 2, 49 / 2) = (24, 24)
   \<and> influence_of (two_points 0) = 1 \<and> influence_of (two_points 1) = 1
   \<and> maxInfluence two_points (24, 24) = 1
   \<and> frag_main two_points (11 / 2, 49 / 2) = COLOR_BORDER_HOVER
   \<and> spatial 100 = 0"
proof -
  have nonneg: "\<forall>i < TRAIL_MAX. 0 \<le> influence_of (two_points i)"
    by (simp add: two_points_def influence_of_def)
  have "maxInfluence two_points (24, 24) = Max (slot_glow two_points (24, 24) ` {..<TRAIL_MAX})"
    using frag_main_border_only [of "(11 / 2, 49 / 2)" two_points "(24, 24)" 100 100] nonneg
    by blast
  also have "\<dots> = 1"
  proof (rule Max_eqI)
    show "finite (slot_glow two_points (24, 24) ` {..<TRAIL_MAX})" by simp
    show "y \<le> 1" if "y \<in> slot_glow two_points (24, 24) ` {..<TRAIL_MAX}" for y
      using that by (auto simp: slot_glow_two_points)
    have "slot_glow two_points (24, 24) 0 = 1" by (simp add: slot_glow_two_points)
    moreover have "(0::nat) \<in> {..<TRAIL_MAX}" by (simp add: TRAIL_MAX_def)
    ultimately show "1 \<in> slot_glow two_points (24, 24) ` {..<TRAIL_MAX}"
      by (metis imageI)
  qed
  finally have m: "maxInfluence two_points (24, 24) = 1" .
  have "frag_main two_points (1 / 2, 49 / 2) = vec4_zero"
    using frag_main_border_only [of "(1 / 2, 49 / 2)" two_points "(24, 24)" 100 100]
    by (simp add: sdf_examples)
  moreover have "frag_main two_points (49 / 2, 49 / 2) = vec4_zero"
    using frag_main_border_only [of "(49 / 2, 49 / 2)" two_points "(24, 24)" 100 100]
    by (simp add: sdf_examples BORDER_WIDTH_def)
  moreover have "frag_main two_points (11 / 2, 49 / 2) = COLOR_BORDER_HOVER"
    using frag_main_border_only [of "(11 / 2, 49 / 2)" two_points "(24, 24)" 100 100]
    by (simp add: sdf_examples cellCenter_examples m BORDER_WIDTH_def COLOR_BORDER_HOVER_def)
  moreover have "spatial 100 = 0"
    using frag_main_border_only [of "(11 / 2, 49 / 2)" two_points "(24, 24)" 100 100]
    by (simp add: HOVER_RADIUS_def)
  ultimately show ?thesis
    by (simp add: sdf_examples cellCenter_examples m two_points_def influence_of_def)
qed

subsection \<open>Mounting\<close>

lemma deliver_Inactive: "fold deliver evs Inactive = Inactive"
  by (induction evs) (simp_all add: deliver_def)

text \<open>
  Claim C9. When the canvas ref or the container ref is empty the effect returns at
  once: it makes no call at all and throws nothing. When both are there and
  \<open>getContext\<close> gives no context, it has asked for the context, it warns on the console
  and returns, again without throwing and without creating a GPU object, a listener or
  an observer. No event reaches an instance that returned this way, so it stays
  inactive. An instance is active only if both refs were there and the context was
  given.
\<close>

theorem mount_without_surface:
  "(canvasRef = None \<or> containerRef = None \<longrightarrow>
      mount canvasRef containerRef now = ([], Inactive))
   \<and> (getContext_webgl canvas = None \<longrightarrow>
        mount (Some canvas) (Some container) now
          = ([Call ''canvas.getContext'',
              ConsoleWarn ''useWebGLGrid: WebGL is not supported in this browser.''],
             Inactive))
   \<and> fold deliver evs Inactive = Inactive
   \<and> (\<forall>st. snd (mount canvasRef containerRef now) = Active st \<longrightarrow>
        (\<exists>cv ct gl. canvasRef = Some cv \<and> containerRef = Some ct
                    \<and> getContext_webgl cv = Some gl))"
proof -
  have a: "mount canvasRef containerRef now = ([], Inactive)"
    if "canvasRef = None \<or> containerRef = None"
    using that by (auto simp: mount_def split: option.splits)
  have b: "mount (Some canvas) (Some container) now
          = ([Call ''canvas.getContext'',
              ConsoleWarn ''useWebGLGrid: WebGL is not supported in this browser.''],
             Inactive)" if "getContext_webgl canvas = None"
    using that by (simp add: mount_def)
  have c: "\<exists>cv ct gl. canvasRef = Some cv \<and> containerRef = Some ct
                    \<and> getContext_webgl cv = Some gl"
    if "snd (mount canvasRef containerRef now) = Active st" for st
    using that by (auto simp: mount_def split: option.splits)
  show ?thesis
    by (intro conjI impI allI a b c deliver_Inactive; assumption)
qed

theorem mount_without_surface_witness:
  "mount None (Some hero) 0 = ([], Inactive)
   \<and> mount (Some no_webgl) None 0 = ([], Inactive)
   \<and> getContext_webgl no_webgl = None
   \<and> mount (Some no_webgl) (Some hero) 0
       = ([Call ''canvas.getContext'',
           ConsoleWarn ''useWebGLGrid: WebGL is not supported in this browser.''],
          Inactive)
   \<and> fold deliver [MouseMove rect100 (pointer_at 0 0) 0, AnimationFrame 16, MouseLeave] Inactive
       = Inactive"
  using mount_without_surface [of None "Some hero" 0 no_webgl hero
      "[MouseMove rect100 (pointer_at 0 0) 0, AnimationFrame 16, MouseLeave]"]
    mount_without_surface [of "Some no_webgl" None 0 no_webgl hero "[]"]
  by (simp add: no_webgl_def)

end
